theory Spec2Isabelle
  imports Complex_Main
begin

section \<open>Arrays\<close>

text \<open>
  An array is its shape and its elements in row-major order. The arrays the program
  receives satisfy \<open>well_shaped\<close>: the number of elements is the product of the shape.
\<close>

datatype 'a tensor = Tensor (shape: "nat list") (data: "'a list")

definition well_shaped :: "'a tensor \<Rightarrow> bool" where
  "well_shaped t = (length (data t) = prod_list (shape t))"

datatype error =
    AxisError int nat
  | LengthMismatch int nat
  | NegativeLength int
  | BroadcastError "nat list" "nat list"

text \<open>An axis index counts from the end when it is negative, as in NumPy.\<close>

definition normalize_axis :: "int \<Rightarrow> nat \<Rightarrow> nat option" where
  "normalize_axis k nd =
     (if 0 \<le> k \<and> k < int nd then Some (nat k)
      else if - int nd \<le> k \<and> k < 0 then Some (nat (k + int nd))
      else None)"

text \<open>\<open>index_axis j i t\<close> is the slice \<open>t[:, ..., i, ..., :]\<close> with \<open>i\<close> at axis \<open>j\<close>.\<close>

definition index_axis :: "nat \<Rightarrow> nat \<Rightarrow> 'a tensor \<Rightarrow> 'a tensor" where
  "index_axis j i t =
     (let sh = shape t;
          outer = prod_list (take j sh);
          d = sh ! j;
          inner = prod_list (drop (Suc j) sh)
      in Tensor (take j sh @ drop (Suc j) sh)
           (concat (map (\<lambda>out. take inner (drop ((out * d + i) * inner) (data t)))
                        [0..<outer])))"

section \<open>The scan primitive\<close>

text \<open>
  The loop of \<open>jax.lax.scan\<close>: the body maps a carry and one element of the scanned
  sequence to the next carry and one output; the outputs are collected in order.
\<close>

fun scan_loop :: "('c \<Rightarrow> 'x \<Rightarrow> 'c \<times> 'y) \<Rightarrow> 'c \<Rightarrow> 'x list \<Rightarrow> 'c \<times> 'y list" where
  "scan_loop f c [] = (c, [])"
| "scan_loop f c (x # xs) =
     (case f c x of (c', y) \<Rightarrow>
        (case scan_loop f c' xs of (c'', ys) \<Rightarrow> (c'', y # ys)))"

text \<open>
  What \<open>nnx.scan\<close> feeds the body as its second argument, for the entry
  \<open>input_in_axis\<close> of \<open>in_axes\<close> and \<open>length = num_steps\<close>, a Python integer. An
  absent input has no array to scan or to broadcast and stays absent at every iteration.
  The entry \<open>None\<close> broadcasts the input. An integer entry scans the input along that
  axis, whose extent has to agree with \<open>length\<close>. Where nothing is scanned, the loop
  runs \<open>length\<close> times, and not at all when \<open>length\<close> is negative.
\<close>

definition scan_xs :: "int option \<Rightarrow> int \<Rightarrow> 'a tensor option \<Rightarrow> error + 'a tensor option list" where
  "scan_xs in_axis len inp =
     (case inp of
        None \<Rightarrow> Inr (replicate (nat len) None)
      | Some x \<Rightarrow>
          (case in_axis of
             None \<Rightarrow> Inr (replicate (nat len) (Some x))
           | Some k \<Rightarrow>
               (case normalize_axis k (length (shape x)) of
                  None \<Rightarrow> Inl (AxisError k (length (shape x)))
                | Some j \<Rightarrow>
                    if int (shape x ! j) = len
                    then Inr (map (\<lambda>i. Some (index_axis j i x)) [0..<nat len])
                    else Inl (LengthMismatch len (shape x ! j)))))"

text \<open>
  \<open>nnx.scan\<close>. The flag \<open>has_out\<close> says that the body returns an output to collect
  and not \<open>None\<close>. The outputs are stacked along a new leading axis of extent
  \<open>length\<close>, and no array has a negative extent: with an output, a negative length is
  an error; with none, there is nothing to stack.
\<close>

definition nnx_scan ::
  "('c \<Rightarrow> 'a tensor option \<Rightarrow> 'c \<times> 'y) \<Rightarrow> bool \<Rightarrow> int option \<Rightarrow> int \<Rightarrow> 'c
     \<Rightarrow> 'a tensor option \<Rightarrow> error + ('c \<times> 'y list)" where
  "nnx_scan f has_out in_axis len carry inp =
     (case scan_xs in_axis len inp of
        Inl e \<Rightarrow> Inl e
      | Inr xs \<Rightarrow>
          if has_out \<and> len < 0 then Inl (NegativeLength len)
          else Inr (scan_loop f carry xs))"

text \<open>Stacking the outputs of a scan: an output that is \<open>None\<close> contributes nothing.\<close>

fun stack :: "'s option list \<Rightarrow> 's list" where
  "stack [] = []"
| "stack (None # ys) = stack ys"
| "stack (Some y # ys) = y # stack ys"

section \<open>Cellular automata (src/cax/core/ca.py)\<close>

text \<open>
  The perception and update modules are the engine's two fields. A value of type \<open>'s\<close>
  is a state of the shape and element type of the run, \<open>'p\<close> a perception.
\<close>

record ('s, 'p, 'a) CA =
  perceive :: "'s \<Rightarrow> 'p"
  update :: "'s \<Rightarrow> 'p \<Rightarrow> 'a tensor option \<Rightarrow> 's"

record ('s, 'p, 'a, 't) UnsupervisedCA = "('s, 'p, 'a) CA" +
  encoder :: "'t \<Rightarrow> real tensor \<times> real tensor"

text \<open>\<open>CA.step\<close>\<close>

definition step :: "('s, 'p, 'a, 'z) CA_scheme \<Rightarrow> 's \<Rightarrow> 'a tensor option \<Rightarrow> 's" where
  "step self state inp =
     (let perception = perceive self state;
          state = update self state perception inp
      in state)"

text \<open>The body \<open>step\<close> local to \<open>CA.__call__\<close>: the carry is the engine and the state.\<close>

definition call_step ::
  "bool \<Rightarrow> ('s, 'p, 'a, 'z) CA_scheme \<times> 's \<Rightarrow> 'a tensor option
     \<Rightarrow> (('s, 'p, 'a, 'z) CA_scheme \<times> 's) \<times> 's option" where
  "call_step all_steps carry inp =
     (case carry of (ca, state) \<Rightarrow>
        (let state = step ca state inp
         in ((ca, state), if all_steps then Some state else None)))"

text \<open>The scan of \<open>CA.__call__\<close>, with its final carry and its outputs.\<close>

definition call_scan ::
  "('s, 'p, 'a, 'z) CA_scheme \<Rightarrow> 's \<Rightarrow> 'a tensor option \<Rightarrow> int \<Rightarrow> bool \<Rightarrow> int option
     \<Rightarrow> error + ((('s, 'p, 'a, 'z) CA_scheme \<times> 's) \<times> 's option list)" where
  "call_scan self first_state inp num_steps all_steps input_in_axis =
     nnx_scan (call_step all_steps) all_steps input_in_axis num_steps (self, first_state) inp"

text \<open>
  The result of \<open>CA.__call__\<close> is the last state, or the states stacked along a new
  leading axis, written as the list of the slices along that axis. \<open>num_steps\<close> is a
  Python integer, which the source hands to the scan as its length with no check of its
  own.
\<close>

datatype 's states = State 's | States "'s list"

definition call ::
  "('s, 'p, 'a, 'z) CA_scheme \<Rightarrow> 's \<Rightarrow> 'a tensor option \<Rightarrow> int \<Rightarrow> bool \<Rightarrow> int option
     \<Rightarrow> error + 's states" where
  "call self first_state inp num_steps all_steps input_in_axis =
     (case call_scan self first_state inp num_steps all_steps input_in_axis of
        Inl e \<Rightarrow> Inl e
      | Inr ((_, last_state), states) \<Rightarrow>
          Inr (if all_steps then States (first_state # stack states) else State last_state))"

section \<open>The engine as an object: modules with variables\<close>

text \<open>
  A module of the engine is an object: it holds variables, and a call of the module may
  rewrite them. \<open>nnx.jit\<close> writes the variables back to the object after
  \<open>CA.step\<close>; the scan of \<open>CA.__call__\<close> carries the engine, hands its variables from
  one iteration to the next and writes them back at the end. A module is here its variables
  and its call, a function of the variables and the argument to the result and the new
  variables.
\<close>

record ('v, 'x, 'y) module =
  variables :: 'v
  forward :: "'v \<Rightarrow> 'x \<Rightarrow> 'y \<times> 'v"

definition apply_module :: "('v, 'x, 'y) module \<Rightarrow> 'x \<Rightarrow> 'y \<times> ('v, 'x, 'y) module" where
  "apply_module m x = (case forward m (variables m) x of (y, v) \<Rightarrow> (y, m\<lparr>variables := v\<rparr>))"

text \<open>
  The engine with its two modules; what a subclass adds (the encoder) is the rest of
  the record.
\<close>

record ('s, 'p, 'a, 'v, 'w) CA_modules =
  perceive_module :: "('v, 's, 'p) module"
  update_module :: "('w, 's \<times> 'p \<times> 'a tensor option, 's) module"

text \<open>
  \<open>CA.step\<close> on the object: the returned state, and the engine as the two calls leave
  it.
\<close>

definition step_modules ::
  "('s, 'p, 'a, 'v, 'w, 'z) CA_modules_scheme \<Rightarrow> 's \<Rightarrow> 'a tensor option
     \<Rightarrow> 's \<times> ('s, 'p, 'a, 'v, 'w, 'z) CA_modules_scheme" where
  "step_modules self state inp =
     (case apply_module (perceive_module self) state of (perception, pm) \<Rightarrow>
        (case apply_module (update_module self) (state, perception, inp) of (state', um) \<Rightarrow>
           (state', self\<lparr>perceive_module := pm, update_module := um\<rparr>)))"

text \<open>
  The body local to \<open>CA.__call__\<close>: \<open>ca.step\<close> has acted on the engine that the body
  returns in the carry.
\<close>

definition call_step_modules ::
  "bool \<Rightarrow> ('s, 'p, 'a, 'v, 'w, 'z) CA_modules_scheme \<times> 's \<Rightarrow> 'a tensor option
     \<Rightarrow> (('s, 'p, 'a, 'v, 'w, 'z) CA_modules_scheme \<times> 's) \<times> 's option" where
  "call_step_modules all_steps carry inp =
     (case carry of (ca, state) \<Rightarrow>
        (case step_modules ca state inp of (state', ca') \<Rightarrow>
           ((ca', state'), if all_steps then Some state' else None)))"

text \<open>
  \<open>CA.__call__\<close> on the object: its result, and the engine after the call. The source
  drops the engine of the final carry (\<open>_\<close>); the scan has written its variables back to
  \<open>self\<close>, so it is the engine the caller holds afterwards.
\<close>

definition call_modules ::
  "('s, 'p, 'a, 'v, 'w, 'z) CA_modules_scheme \<Rightarrow> 's \<Rightarrow> 'a tensor option \<Rightarrow> int \<Rightarrow> bool
     \<Rightarrow> int option \<Rightarrow> error + ('s states \<times> ('s, 'p, 'a, 'v, 'w, 'z) CA_modules_scheme)" where
  "call_modules self first_state inp num_steps all_steps input_in_axis =
     (case nnx_scan (call_step_modules all_steps) all_steps input_in_axis num_steps
             (self, first_state) inp of
        Inl e \<Rightarrow> Inl e
      | Inr ((ca, last_state), states) \<Rightarrow>
          Inr (if all_steps then States (first_state # stack states) else State last_state, ca))"

text \<open>
  An engine of pure functions as an object: modules without variables. On it the two
  models agree (\<open>call_modules_of_functions\<close> below).
\<close>

definition of_functions :: "('s, 'p, 'a) CA \<Rightarrow> ('s, 'p, 'a, unit, unit) CA_modules" where
  "of_functions ca =
     \<lparr> perceive_module = \<lparr> variables = (), forward = (\<lambda>v s. (perceive ca s, v)) \<rparr>,
       update_module =
         \<lparr> variables = (), forward = (\<lambda>v x. (update ca (fst x) (fst (snd x)) (snd (snd x)), v)) \<rparr> \<rparr>"

section \<open>Elementwise arithmetic with broadcasting\<close>

text \<open>
  NumPy's broadcasting rule, on the shapes read from the last axis: two extents agree
  when they are equal or one of them is 1, and the shorter shape is completed by 1s.
\<close>

fun broadcast_rev :: "nat list \<Rightarrow> nat list \<Rightarrow> nat list option" where
  "broadcast_rev [] ys = Some ys"
| "broadcast_rev xs [] = Some xs"
| "broadcast_rev (x # xs) (y # ys) =
     (if x = y \<or> y = 1 then map_option ((#) x) (broadcast_rev xs ys)
      else if x = 1 then map_option ((#) y) (broadcast_rev xs ys)
      else None)"

definition broadcast_shapes :: "nat list \<Rightarrow> nat list \<Rightarrow> nat list option" where
  "broadcast_shapes a b = map_option rev (broadcast_rev (rev a) (rev b))"

text \<open>
  \<open>expand tgt src xs\<close> repeats the elements \<open>xs\<close> of an array of shape \<open>src\<close> along
  the axes of extent 1 that the shape \<open>tgt\<close> stretches.
\<close>

fun expand :: "nat list \<Rightarrow> nat list \<Rightarrow> 'a list \<Rightarrow> 'a list" where
  "expand (n # ns) (d # ds) xs =
     (if d = n
      then concat (map (\<lambda>j. expand ns ds (take (prod_list ds) (drop (j * prod_list ds) xs)))
                       [0..<n])
      else concat (replicate n (expand ns ds xs)))"
| "expand _ _ xs = xs"

definition broadcast_to :: "nat list \<Rightarrow> 'a tensor \<Rightarrow> 'a tensor" where
  "broadcast_to sh t =
     Tensor sh (expand sh (replicate (length sh - length (shape t)) 1 @ shape t) (data t))"

definition binop :: "('a \<Rightarrow> 'a \<Rightarrow> 'a) \<Rightarrow> 'a tensor \<Rightarrow> 'a tensor \<Rightarrow> error + 'a tensor" where
  "binop f a b =
     (case broadcast_shapes (shape a) (shape b) of
        None \<Rightarrow> Inl (BroadcastError (shape a) (shape b))
      | Some sh \<Rightarrow>
          Inr (Tensor sh (map2 f (data (broadcast_to sh a)) (data (broadcast_to sh b)))))"

definition tmap :: "('a \<Rightarrow> 'b) \<Rightarrow> 'a tensor \<Rightarrow> 'b tensor" where
  "tmap f t = Tensor (shape t) (map f (data t))"

text \<open>
  \<open>jax.random.normal(key, shape)\<close>: an array of the requested shape. The generator is
  a parameter: \<open>sample key shape i\<close> is the draw at position \<open>i\<close>.
\<close>

definition normal :: "('k \<Rightarrow> nat list \<Rightarrow> nat \<Rightarrow> real) \<Rightarrow> 'k \<Rightarrow> nat list \<Rightarrow> real tensor" where
  "normal sample key sh = Tensor sh (map (sample key sh) [0..<prod_list sh])"

text \<open>\<open>UnsupervisedCA.encode\<close>, over the reals.\<close>

definition encode ::
  "('k \<Rightarrow> nat list \<Rightarrow> nat \<Rightarrow> real) \<Rightarrow> ('s, 'p, 'a, 't, 'z) UnsupervisedCA_scheme \<Rightarrow> 't \<Rightarrow> 'k
     \<Rightarrow> error + real tensor" where
  "encode sample self target key =
     (case encoder self target of (mean, logvar) \<Rightarrow>
        (case binop (*) (normal sample key (shape mean)) (tmap exp (tmap ((*) (1 / 2)) logvar)) of
           Inl e \<Rightarrow> Inl e
         | Inr noise_std \<Rightarrow> binop (+) mean noise_std))"

section \<open>Reference notions of the specification\<close>

text \<open>The extent of an array along an axis, when the axis exists.\<close>

definition axis_extent :: "int \<Rightarrow> 'a tensor \<Rightarrow> nat option" where
  "axis_extent k x = map_option (\<lambda>j. shape x ! j) (normalize_axis k (length (shape x)))"

text \<open>
  The input of transition \<open>i\<close>: absent, the constant input, or slice \<open>i\<close> along the
  input axis.
\<close>

definition input_slice :: "int option \<Rightarrow> 'a tensor option \<Rightarrow> nat \<Rightarrow> 'a tensor option" where
  "input_slice in_axis inp i =
     (case inp of
        None \<Rightarrow> None
      | Some x \<Rightarrow>
          (case in_axis of
             None \<Rightarrow> Some x
           | Some k \<Rightarrow>
               (case normalize_axis k (length (shape x)) of
                  None \<Rightarrow> None
                | Some j \<Rightarrow> Some (index_axis j i x))))"

text \<open>\<open>steps ca f i s\<close> applies \<open>step\<close> to \<open>s\<close> \<open>i\<close> times, transition \<open>j\<close> with input \<open>f j\<close>.\<close>

fun steps :: "('s, 'p, 'a, 'z) CA_scheme \<Rightarrow> (nat \<Rightarrow> 'a tensor option) \<Rightarrow> nat \<Rightarrow> 's \<Rightarrow> 's" where
  "steps ca f 0 s = s"
| "steps ca f (Suc i) s = step ca (steps ca f i s) (f i)"

text \<open>
  An input configuration the scan accepts: no input, a constant input, or an input whose
  extent along the input axis is the number of steps.
\<close>

definition scannable :: "int option \<Rightarrow> nat \<Rightarrow> 'a tensor option \<Rightarrow> bool" where
  "scannable in_axis n inp =
     (case inp of
        None \<Rightarrow> True
      | Some x \<Rightarrow> (case in_axis of None \<Rightarrow> True | Some k \<Rightarrow> axis_extent k x = Some n))"



section \<open>Example inputs\<close>

text \<open>
  The scenario of the specification: the perception is the state itself and the update
  adds 1 to every cell; with an input, it adds the sum of the input's elements instead.
\<close>

definition incr_ca :: "(int tensor, int tensor, int) CA" where
  "incr_ca =
     \<lparr> perceive = (\<lambda>s. s),
       update = (\<lambda>s p inp.
          tmap (\<lambda>c. c + (case inp of None \<Rightarrow> 1 | Some x \<Rightarrow> sum_list (data x))) p) \<rparr>"

text \<open>An encoder whose mean is the target and whose log-variance is three zeros.\<close>

definition incr_vae :: "(int tensor, int tensor, int, real tensor) UnsupervisedCA" where
  "incr_vae = CA.extend incr_ca (UnsupervisedCA.fields (\<lambda>t. (t, Tensor [3] [0, 0, 0])))"

definition key_noise :: "nat \<Rightarrow> nat list \<Rightarrow> nat \<Rightarrow> real" where
  "key_noise key sh i = real key"

definition zeros :: "int tensor" where
  "zeros = Tensor [2, 2, 1] [0, 0, 0, 0]"

definition ramp :: "int tensor" where
  "ramp = Tensor [2, 3] [1, 2, 3, 4, 5, 6]"


section \<open>The scan of the engine, unfolded\<close>

lemma call_step_pair:
  "call_step all (ca, s) x = ((ca, step ca s x), if all then Some (step ca s x) else None)"
  by (simp add: call_step_def Let_def)

lemma scan_loop_call_step:
  "scan_loop (call_step all) (ca, s) xs =
     ((ca, foldl (step ca) s xs),
      map (\<lambda>i. if all then Some (foldl (step ca) s (take (Suc i) xs)) else None) [0..<length xs])"
proof (induction xs arbitrary: s)
  case Nil
  show ?case by simp
next
  case (Cons x xs)
  have shift: "[0..<Suc (length xs)] = 0 # map Suc [0..<length xs]"
    by (simp add: upt_conv_Cons map_Suc_upt del: upt_Suc)
  show ?case
    by (simp add: call_step_pair Cons.IH shift comp_def del: upt_Suc)
qed

lemma stack_map_Some: "stack (map (\<lambda>i. Some (g i)) xs) = map g xs"
  by (induction xs) simp_all

lemma foldl_steps: "foldl (step ca) s (map f [0..<i]) = steps ca f i s"
  by (induction i) simp_all

lemma input_slice_absent: "input_slice ax None = (\<lambda>i. None)"
  by (simp add: fun_eq_iff input_slice_def)

lemma input_slice_constant: "input_slice None (Some x) = (\<lambda>i. Some x)"
  by (simp add: fun_eq_iff input_slice_def)

lemma input_slice_axis:
  "normalize_axis k (length (shape x)) = Some j \<Longrightarrow>
   input_slice (Some k) (Some x) = (\<lambda>i. Some (index_axis j i x))"
  by (simp add: fun_eq_iff input_slice_def)

lemma scan_xs_scannable:
  "scannable ax n inp \<Longrightarrow> scan_xs ax (int n) inp = Inr (map (input_slice ax inp) [0..<n])"
  by (auto simp: scannable_def scan_xs_def axis_extent_def map_replicate_const
                 input_slice_absent input_slice_constant input_slice_axis
           split: option.splits)

lemma take_map_upt: "i \<le> n \<Longrightarrow> take i (map f [0..<n]) = map f [0..<i]"
  by (simp add: take_map min_def)

lemma call_all_steps:
  assumes "scannable ax n inp"
  shows "call ca s inp (int n) True ax =
           Inr (States (map (\<lambda>i. steps ca (input_slice ax inp) i s) [0..<Suc n]))"
proof -
  have "stack (map (\<lambda>i. Some (foldl (step ca) s (take (Suc i) (map (input_slice ax inp) [0..<n])))) [0..<n])
        = map (\<lambda>i. steps ca (input_slice ax inp) (Suc i) s) [0..<n]"
    unfolding stack_map_Some
    by (rule map_cong) (simp_all add: take_map_upt foldl_steps del: upt_Suc steps.simps)
  moreover have "[0..<Suc n] = 0 # map Suc [0..<n]"
    by (simp add: upt_conv_Cons map_Suc_upt del: upt_Suc)
  ultimately show ?thesis
    using assms
    by (simp add: call_def call_scan_def nnx_scan_def scan_xs_scannable scan_loop_call_step
          comp_def del: upt_Suc steps.simps(2))
qed

lemma call_last:
  assumes "scannable ax n inp"
  shows "call ca s inp (int n) False ax = Inr (State (steps ca (input_slice ax inp) n s))"
  using assms
  by (simp add: call_def call_scan_def nnx_scan_def scan_xs_scannable scan_loop_call_step
        foldl_steps del: upt_Suc steps.simps)

lemma steps_add: "steps ca f (a + b) s = steps ca (\<lambda>i. f (a + i)) b (steps ca f a s)"
  by (induction b) simp_all

lemma scannable_no_axis: "scannable None n inp"
  by (simp add: scannable_def split: option.splits)

lemma scannable_absent: "scannable ax n None"
  by (simp add: scannable_def)

lemma nth_map_upt0: "i \<le> n \<Longrightarrow> map g [0..<Suc n] ! i = g i"
proof -
  assume "i \<le> n"
  then have "i < length [0..<Suc n]" by simp
  then show ?thesis
    by (simp only: nth_map nth_upt add_0 length_upt diff_zero)
qed

lemma call_transitions:
  assumes sc: "scannable ax n inp"
  shows "\<exists>traj. call ca s inp (int n) True ax = Inr (States traj) \<and>
      call ca s inp (int n) False ax = Inr (State (traj ! n)) \<and> length traj = n + 1 \<and>
      (\<forall>i<n. traj ! Suc i = step ca (traj ! i) (input_slice ax inp i))"
proof -
  let ?g = "\<lambda>i. steps ca (input_slice ax inp) i s"
  let ?traj = "map ?g [0..<Suc n]"
  have a: "call ca s inp (int n) True ax = Inr (States ?traj)"
    using sc by (rule call_all_steps)
  have "?traj ! n = ?g n"
    by (rule nth_map_upt0) simp
  then have b: "call ca s inp (int n) False ax = Inr (State (?traj ! n))"
    using call_last[OF sc, of ca s] by (simp only:)
  have c: "length ?traj = n + 1"
    by simp
  have d: "\<forall>i<n. ?traj ! Suc i = step ca (?traj ! i) (input_slice ax inp i)"
  proof (intro allI impI)
    fix i assume "i < n"
    then have "?traj ! Suc i = ?g (Suc i)" and "?traj ! i = ?g i"
      by (simp_all only: nth_map_upt0 Suc_le_eq less_imp_le)
    then show "?traj ! Suc i = step ca (?traj ! i) (input_slice ax inp i)"
      by (simp only: steps.simps)
  qed
  from a b c d show ?thesis by blast
qed

lemma step_incr_ca:
  "step incr_ca s inp = tmap (\<lambda>c. c + (case inp of None \<Rightarrow> 1 | Some x \<Rightarrow> sum_list (data x))) s"
  by (simp add: step_def incr_ca_def)

lemma scan_xs_negative:
  "m < 0 \<Longrightarrow> inp = None \<or> ax = None \<Longrightarrow> scan_xs ax m inp = Inr []"
  by (auto simp: scan_xs_def split: option.splits)

lemma scan_xs_negative_axis:
  "m < 0 \<Longrightarrow> \<exists>e. scan_xs (Some k) m (Some x) = Inl e"
  by (auto simp: scan_xs_def split: option.splits)

lemma scan_xs_absent: "scan_xs ax m None = Inr (replicate (nat m) None)"
  by (simp add: scan_xs_def)

lemma call_negative_all_steps: "m < 0 \<Longrightarrow> \<exists>e. call ca s inp m True ax = Inl e"
  by (cases "scan_xs ax m inp") (simp_all add: call_def call_scan_def nnx_scan_def)

section \<open>The engine as an object, unfolded\<close>





lemma call_step_modules_pair:
  "step_modules ca s x = (s1, ca1) \<Longrightarrow>
   call_step_modules all (ca, s) x = ((ca1, s1), if all then Some s1 else None)"
  by (simp add: call_step_modules_def)




lemma step_modules_of_functions:
  "step_modules (of_functions ca) s inp = (step ca s inp, of_functions ca)"
  by (simp add: step_modules_def apply_module_def of_functions_def step_def)

lemma call_step_modules_of_functions:
  "call_step_modules all (of_functions ca, s) x =
     ((of_functions ca, step ca s x), if all then Some (step ca s x) else None)"
  by (simp add: call_step_modules_pair[OF step_modules_of_functions])

lemma scan_loop_of_functions:
  "scan_loop (call_step_modules all) (of_functions ca, s) xs =
     ((of_functions ca, snd (fst (scan_loop (call_step all) (ca, s) xs))),
      snd (scan_loop (call_step all) (ca, s) xs))"
  by (induction xs arbitrary: s)
     (simp_all add: call_step_modules_of_functions call_step_pair split: prod.splits)

lemma call_modules_of_functions:
  "call_modules (of_functions ca) s inp n all_steps ax =
     (case call ca s inp n all_steps ax of
        Inl e \<Rightarrow> Inl e
      | Inr r \<Rightarrow> Inr (r, of_functions ca))"
  by (auto simp: call_modules_def call_def call_scan_def nnx_scan_def scan_loop_of_functions
           split: sum.splits prod.splits)


section \<open>Broadcasting and the encoder, unfolded\<close>

lemma broadcast_rev_same: "broadcast_rev xs xs = Some xs"
  by (induction xs) simp_all

lemma broadcast_rev_absorb: "broadcast_rev a b = Some c \<Longrightarrow> broadcast_rev a c = Some c"
proof (induction a b arbitrary: c rule: broadcast_rev.induct)
  case (1 ys)
  then show ?case by simp
next
  case (2 xs)
  then show ?case by (cases xs) (simp_all add: broadcast_rev_same)
next
  case (3 x xs y ys)
  then show ?case by (auto split: if_splits)
qed

lemma broadcast_shapes_same: "broadcast_shapes sh sh = Some sh"
  by (simp add: broadcast_shapes_def broadcast_rev_same)

lemma broadcast_shapes_absorb:
  "broadcast_shapes a b = Some c \<Longrightarrow> broadcast_shapes a c = Some c"
  by (auto simp: broadcast_shapes_def dest: broadcast_rev_absorb)

lemma concat_chunks:
  "length xs = n * m \<Longrightarrow> concat (map (\<lambda>j. take m (drop (j * m) xs)) [0..<n]) = xs"
proof (induction n arbitrary: xs)
  case 0
  then show ?case by simp
next
  case (Suc n)
  have "concat (map (\<lambda>j. take m (drop (j * m) xs)) [0..<n])
        = concat (map (\<lambda>j. take m (drop (j * m) (take (n * m) xs))) [0..<n])"
  proof (rule arg_cong[where f = concat], rule map_cong[OF refl])
    fix j assume "j \<in> set [0..<n]"
    then have "j * m + m \<le> n * m"
      by (metis Suc_leI atLeastLessThan_iff mult_Suc mult_le_mono1 set_upt add.commute)
    then show "take m (drop (j * m) xs) = take m (drop (j * m) (take (n * m) xs))"
      by (simp add: drop_take)
  qed
  also have "\<dots> = take (n * m) xs"
    using Suc.prems by (intro Suc.IH) simp
  finally show ?case
    using Suc.prems by simp
qed

lemma expand_same: "length xs = prod_list sh \<Longrightarrow> expand sh sh xs = xs"
proof (induction sh arbitrary: xs)
  case Nil
  then show ?case by simp
next
  case (Cons n ns)
  let ?m = "prod_list ns"
  have len: "length xs = n * ?m"
    using Cons.prems by simp
  have eq: "map (\<lambda>j. expand ns ns (take ?m (drop (j * ?m) xs))) [0..<n]
        = map (\<lambda>j. take ?m (drop (j * ?m) xs)) [0..<n]"
  proof (rule map_cong[OF refl])
    fix j assume "j \<in> set [0..<n]"
    then have "j * ?m + ?m \<le> n * ?m"
      by (metis Suc_leI atLeastLessThan_iff mult_Suc mult_le_mono1 set_upt add.commute)
    then have "length (take ?m (drop (j * ?m) xs)) = ?m"
      using len by simp
    then show "expand ns ns (take ?m (drop (j * ?m) xs)) = take ?m (drop (j * ?m) xs)"
      by (rule Cons.IH)
  qed
  have "expand (n # ns) (n # ns) xs
        = concat (map (\<lambda>j. expand ns ns (take ?m (drop (j * ?m) xs))) [0..<n])"
    by simp
  also have "\<dots> = concat (map (\<lambda>j. take ?m (drop (j * ?m) xs)) [0..<n])"
    by (simp only: eq)
  also have "\<dots> = xs"
    by (rule concat_chunks[OF len])
  finally show ?case .
qed

lemma broadcast_to_same: "well_shaped t \<Longrightarrow> broadcast_to (shape t) t = t"
  by (cases t) (simp add: well_shaped_def broadcast_to_def expand_same)

lemma binop_same_shape:
  "well_shaped a \<Longrightarrow> well_shaped b \<Longrightarrow> shape a = shape b \<Longrightarrow>
   binop f a b = Inr (Tensor (shape a) (map2 f (data a) (data b)))"
  using broadcast_to_same[of a] broadcast_to_same[of b]
  by (simp add: binop_def broadcast_shapes_same)

lemma binop_fails: "broadcast_shapes (shape a) (shape b) = None \<Longrightarrow>
  binop f a b = Inl (BroadcastError (shape a) (shape b))"
  by (simp add: binop_def)

lemma binop_returns: "broadcast_shapes (shape a) (shape b) = Some sh \<Longrightarrow>
  \<exists>r. binop f a b = Inr r \<and> shape r = sh"
  by (simp add: binop_def)

lemma encode_unfold:
  "encoder ca target = (mean, logvar) \<Longrightarrow>
   encode sample ca target key =
     (case binop (*) (normal sample key (shape mean)) (tmap exp (tmap ((*) (1 / 2)) logvar)) of
        Inl e \<Rightarrow> Inl e
      | Inr noise_std \<Rightarrow> binop (+) mean noise_std)"
  by (simp add: encode_def)

lemma well_shaped_normal: "well_shaped (normal sample key sh)"
  by (simp add: well_shaped_def normal_def)

lemma shape_normal: "shape (normal sample key sh) = sh"
  by (simp add: normal_def)

lemma well_shaped_tmap: "well_shaped (tmap f t) = well_shaped t"
  by (simp add: well_shaped_def tmap_def)

lemma shape_tmap: "shape (tmap f t) = shape t"
  by (simp add: tmap_def)

lemma encoder_incr_vae: "encoder incr_vae t = (t, Tensor [3] [0, 0, 0])"
  by (simp add: incr_vae_def CA.extend_def UnsupervisedCA.fields_def)

lemmas eval_arrays = binop_def normal_def tmap_def broadcast_shapes_def broadcast_to_def
  key_noise_def upt_rec numeral_2_eq_2 numeral_3_eq_3

section \<open>The claims\<close>

text \<open>
  C1. With all_steps set, the run returns the trajectory: it has num_steps + 1 elements,
  element 0 is the first state, and element i is step applied i times to the first state,
  transition j with the input of transition j. The scan has to accept the input
  configuration: no input, a constant input, or an input whose extent along
  input_in_axis is num_steps.
\<close>

theorem call_all_steps_trajectory:
  assumes "scannable ax n inp"
  shows "\<exists>traj. call ca s inp (int n) True ax = Inr (States traj) \<and> length traj = n + 1 \<and>
           traj ! 0 = s \<and> (\<forall>i\<le>n. traj ! i = steps ca (input_slice ax inp) i s)"
proof -
  let ?traj = "map (\<lambda>i. steps ca (input_slice ax inp) i s) [0..<Suc n]"
  have "call ca s inp (int n) True ax = Inr (States ?traj)"
    using assms by (rule call_all_steps)
  moreover have "length ?traj = n + 1"
    by simp
  moreover have "?traj ! 0 = s"
    by (simp add: upt_conv_Cons del: upt_Suc)
  moreover have "\<forall>i\<le>n. ?traj ! i = steps ca (input_slice ax inp) i s"
  proof (intro allI impI)
    fix i assume "i \<le> n"
    then have "i < length [0..<Suc n]" by simp
    then show "?traj ! i = steps ca (input_slice ax inp) i s"
      by (simp only: nth_map nth_upt add_0 length_upt diff_zero)
  qed
  ultimately show ?thesis by blast
qed

theorem call_all_steps_trajectory_witness:
  "scannable (Some 1) 3 (Some ramp) \<and>
   (\<exists>traj. call incr_ca zeros (Some ramp) 3 True (Some 1) = Inr (States traj) \<and>
      length traj = 3 + 1 \<and> traj ! 0 = zeros \<and>
      (\<forall>i\<le>3. traj ! i = steps incr_ca (input_slice (Some 1) (Some ramp)) i zeros))"
proof -
  have h: "scannable (Some 1) 3 (Some ramp)"
    by (simp add: scannable_def axis_extent_def normalize_axis_def ramp_def)
  from h call_all_steps_trajectory[OF h, of incr_ca zeros] show ?thesis
    by simp
qed

text \<open>
  C2. With num_steps = 0 no transition is applied: the run returns the first state, or
  with all_steps the trajectory that holds the first state only.
\<close>

theorem call_zero_steps:
  "call ca s inp 0 False None = Inr (State s) \<and> call ca s inp 0 True None = Inr (States [s])"
  using call_last[OF scannable_no_axis, where n = 0 and inp = inp and ca = ca and s = s]
    call_all_steps[OF scannable_no_axis, where n = 0 and inp = inp and ca = ca and s = s]
  by simp

text \<open>
  C3. With a constant or absent input, running a + b steps is running a steps and then
  b steps from the state reached.
\<close>

theorem call_composition:
  "\<exists>s1. call ca s inp (int a) False None = Inr (State s1) \<and>
        call ca s inp (int (a + b)) False None = call ca s1 inp (int b) False None"
proof -
  have const: "input_slice None inp = (\<lambda>i. inp)"
    by (cases inp) (simp_all add: input_slice_absent input_slice_constant)
  show ?thesis
    using call_last[OF scannable_no_axis, where n = a and inp = inp and ca = ca and s = s]
      call_last[OF scannable_no_axis, where n = "a + b" and inp = inp and ca = ca and s = s]
      call_last[OF scannable_no_axis, where n = b and inp = inp and ca = ca
        and s = "steps ca (\<lambda>i. inp) a s"]
    by (simp only: const steps_add) simp
qed

text \<open>
  C4. A constant input reaches step unchanged at every transition: each state of the
  trajectory is step of the previous one with that same input. With input_in_axis set,
  transition i gets slice i of the input along that axis. The last state returned
  without all_steps is the last state of that trajectory.
\<close>

theorem call_input_per_step:
  "(\<exists>traj. call ca s (Some x) (int n) True None = Inr (States traj) \<and>
      call ca s (Some x) (int n) False None = Inr (State (traj ! n)) \<and> length traj = n + 1 \<and>
      (\<forall>i<n. traj ! Suc i = step ca (traj ! i) (Some x))) \<and>
   (normalize_axis k (length (shape x)) = Some j \<and> shape x ! j = n \<longrightarrow>
    (\<exists>traj. call ca s (Some x) (int n) True (Some k) = Inr (States traj) \<and>
      call ca s (Some x) (int n) False (Some k) = Inr (State (traj ! n)) \<and> length traj = n + 1 \<and>
      (\<forall>i<n. traj ! Suc i = step ca (traj ! i) (Some (index_axis j i x)))))"
proof (intro conjI impI)
  show "\<exists>traj. call ca s (Some x) (int n) True None = Inr (States traj) \<and>
      call ca s (Some x) (int n) False None = Inr (State (traj ! n)) \<and> length traj = n + 1 \<and>
      (\<forall>i<n. traj ! Suc i = step ca (traj ! i) (Some x))"
    using call_transitions[OF scannable_no_axis, where ca=ca and s=s and inp="Some x" and n=n]
    by (simp only: input_slice_constant)
next
  assume h: "normalize_axis k (length (shape x)) = Some j \<and> shape x ! j = n"
  then have sc: "scannable (Some k) n (Some x)"
    by (simp add: scannable_def axis_extent_def)
  from h have sl: "input_slice (Some k) (Some x) = (\<lambda>i. Some (index_axis j i x))"
    by (simp add: input_slice_axis)
  show "\<exists>traj. call ca s (Some x) (int n) True (Some k) = Inr (States traj) \<and>
      call ca s (Some x) (int n) False (Some k) = Inr (State (traj ! n)) \<and> length traj = n + 1 \<and>
      (\<forall>i<n. traj ! Suc i = step ca (traj ! i) (Some (index_axis j i x)))"
    using call_transitions[OF sc, where ca=ca and s=s] by (simp only: sl)
qed

theorem call_input_per_step_witness:
  "normalize_axis (- 1) (length (shape ramp)) = Some 1 \<and> shape ramp ! 1 = 3 \<and>
   (\<exists>traj. call incr_ca zeros (Some ramp) 3 True (Some (- 1)) = Inr (States traj) \<and>
      call incr_ca zeros (Some ramp) 3 False (Some (- 1)) = Inr (State (traj ! 3)) \<and>
      length traj = 3 + 1 \<and>
      (\<forall>i<3. traj ! Suc i = step incr_ca (traj ! i) (Some (index_axis 1 i ramp))))"
proof -
  have h: "normalize_axis (- 1) (length (shape ramp)) = Some 1 \<and> shape ramp ! 1 = 3"
    by (simp add: normalize_axis_def ramp_def)
  from call_input_per_step[of incr_ca zeros ramp 3 "- 1" 1] h
  show ?thesis unfolding of_nat_numeral by blast
qed

text \<open>
  C5. When the extent of the input along input_in_axis is smaller than num_steps, the
  run fails: the scan rejects the length, and no slice is dropped or used twice.
\<close>

theorem call_short_axis_fails:
  "axis_extent k x = Some d \<Longrightarrow> d < n \<Longrightarrow>
   call ca s (Some x) (int n) all_steps (Some k) = Inl (LengthMismatch (int n) d)"
  by (auto simp: axis_extent_def call_def call_scan_def nnx_scan_def scan_xs_def
           split: option.splits)

theorem call_short_axis_fails_witness:
  "axis_extent 0 ramp = Some 2 \<and> (2::nat) < 3 \<and>
   call incr_ca zeros (Some ramp) 3 False (Some 0) = Inl (LengthMismatch 3 2)"
proof -
  have h: "axis_extent 0 ramp = Some 2"
    by (simp add: axis_extent_def normalize_axis_def ramp_def)
  have l: "(2::nat) < 3" by simp
  from h l call_short_axis_fails[OF h l, of incr_ca zeros False] show ?thesis
    by simp
qed

text \<open>
  C6. For every state and optional input, step returns the update module applied to
  the state, the perception of that same state, and the input.
\<close>

theorem step_is_update_of_perceive:
  "step ca s inp = update ca s (perceive ca s) inp"
  by (simp add: step_def)

text \<open>
  C7. encode returns mean + noise * exp(0.5 * logvar), where (mean, logvar) is the
  encoder's output on the target and noise is the array of the shape of mean drawn from
  the key. When mean and logvar are well-shaped arrays of one shape, element i of the
  result is mean i + noise i * exp (logvar i / 2).
\<close>

theorem encode_reparameterization:
  assumes enc: "encoder ca target = (mean, logvar)"
  shows "encode sample ca target key =
           (case binop (*) (normal sample key (shape mean)) (tmap exp (tmap ((*) (1 / 2)) logvar)) of
              Inl e \<Rightarrow> Inl e
            | Inr noise_std \<Rightarrow> binop (+) mean noise_std) \<and>
         (well_shaped mean \<and> well_shaped logvar \<and> shape mean = shape logvar \<longrightarrow>
          encode sample ca target key =
            Inr (Tensor (shape mean)
                  (map (\<lambda>i. data mean ! i + sample key (shape mean) i * exp (1 / 2 * data logvar ! i))
                       [0..<prod_list (shape mean)])))"
proof (intro conjI impI)
  show "encode sample ca target key =
           (case binop (*) (normal sample key (shape mean)) (tmap exp (tmap ((*) (1 / 2)) logvar)) of
              Inl e \<Rightarrow> Inl e
            | Inr noise_std \<Rightarrow> binop (+) mean noise_std)"
    using enc by (rule encode_unfold)
next
  assume h: "well_shaped mean \<and> well_shaped logvar \<and> shape mean = shape logvar"
  let ?n = "prod_list (shape mean)"
  let ?noise = "normal sample key (shape mean)"
  let ?std = "tmap exp (tmap ((*) (1 / 2)) logvar)"
  let ?p = "Tensor (shape mean) (map2 (*) (data ?noise) (data ?std))"
  have lm: "length (data mean) = ?n" and ll: "length (data logvar) = ?n"
    using h by (simp_all add: well_shaped_def)
  have "binop (*) ?noise ?std = Inr (Tensor (shape ?noise) (map2 (*) (data ?noise) (data ?std)))"
    using h by (intro binop_same_shape) (simp_all add: well_shaped_normal well_shaped_tmap shape_normal shape_tmap)
  then have mul: "binop (*) ?noise ?std = Inr ?p"
    by (simp add: shape_normal)
  have shaped: "well_shaped ?p"
    using ll by (simp add: well_shaped_def normal_def tmap_def)
  have "binop (+) mean ?p = Inr (Tensor (shape mean) (map2 (+) (data mean) (data ?p)))"
    using h shaped by (intro binop_same_shape) simp_all
  moreover have "map2 (+) (data mean) (data ?p)
      = map (\<lambda>i. data mean ! i + sample key (shape mean) i * exp (1 / 2 * data logvar ! i)) [0..<?n]"
    using lm ll by (intro nth_equalityI) (simp_all add: normal_def tmap_def)
  ultimately show "encode sample ca target key =
            Inr (Tensor (shape mean)
                  (map (\<lambda>i. data mean ! i + sample key (shape mean) i * exp (1 / 2 * data logvar ! i))
                       [0..<?n]))"
    using encode_unfold[OF enc, of sample key] mul by simp
qed

theorem encode_reparameterization_witness:
  "encoder incr_vae (Tensor [3] [5, 6, 7]) = (Tensor [3] [5, 6, 7], Tensor [3] [0, 0, 0]) \<and>
   well_shaped (Tensor [3] [5, 6, 7 :: real]) \<and> well_shaped (Tensor [3] [0, 0, 0 :: real]) \<and>
   encode key_noise incr_vae (Tensor [3] [5, 6, 7]) 2 = Inr (Tensor [3] [7, 8, 9])"
proof -
  have e: "encoder incr_vae (Tensor [3] [5, 6, 7]) = (Tensor [3] [5, 6, 7], Tensor [3] [0, 0, 0])"
    by (rule encoder_incr_vae)
  have w: "well_shaped (Tensor [3] [5, 6, 7 :: real]) \<and> well_shaped (Tensor [3] [0, 0, 0 :: real])"
    by (simp add: well_shaped_def)
  let ?M = "Tensor [3] [5, 6, 7 :: real]" and ?L = "Tensor [3] [0, 0, 0 :: real]"
  have r: "encode key_noise incr_vae ?M 2 =
      Inr (Tensor (shape ?M)
            (map (\<lambda>i. data ?M ! i + key_noise 2 (shape ?M) i * exp (1 / 2 * data ?L ! i))
                 [0..<prod_list (shape ?M)]))"
    by (rule mp[OF conjunct2[OF encode_reparameterization[OF e, of key_noise 2]]])
       (simp add: well_shaped_def)
  have v: "Tensor (shape ?M)
            (map (\<lambda>i. data ?M ! i + key_noise 2 (shape ?M) i * exp (1 / 2 * data ?L ! i))
                 [0..<prod_list (shape ?M)]) = Tensor [3] [7, 8, 9]"
    by (simp add: key_noise_def upt_rec numeral_3_eq_3)
  have "encode key_noise incr_vae (Tensor [3] [5, 6, 7]) 2 = Inr (Tensor [3] [7, 8, 9])"
    using r by (simp only: v)
  with e w show ?thesis by blast
qed

text \<open>
  C8, as amended. encode has no check of its own on the shapes of mean and logvar. It
  fails exactly when the two shapes cannot be broadcast together; when they differ and
  can be broadcast, it returns an array of the broadcast shape.
\<close>

theorem encode_fails_iff_not_broadcastable:
  assumes enc: "encoder ca target = (mean, logvar)"
  shows "case broadcast_shapes (shape mean) (shape logvar) of
           None \<Rightarrow> encode sample ca target key = Inl (BroadcastError (shape mean) (shape logvar))
         | Some sh \<Rightarrow> (\<exists>r. encode sample ca target key = Inr r \<and> shape r = sh)"
proof (cases "broadcast_shapes (shape mean) (shape logvar)")
  case None
  then show ?thesis
    using encode_unfold[OF enc, of sample key]
    by (simp add: binop_fails shape_normal shape_tmap)
next
  case (Some sh)
  then obtain p where p: "binop (*) (normal sample key (shape mean)) (tmap exp (tmap ((*) (1 / 2)) logvar)) = Inr p"
    and sp: "shape p = sh"
    using binop_returns[of "normal sample key (shape mean)" "tmap exp (tmap ((*) (1 / 2)) logvar)" sh "(*)"]
    by (auto simp: shape_normal shape_tmap)
  have "broadcast_shapes (shape mean) (shape p) = Some sh"
    using broadcast_shapes_absorb[OF Some] sp by simp
  from binop_returns[OF this, of "(+)"] show ?thesis
    using encode_unfold[OF enc, of sample key] p Some by simp
qed

theorem encode_fails_iff_not_broadcastable_witness:
  "encoder incr_vae (Tensor [1] [5]) = (Tensor [1] [5], Tensor [3] [0, 0, 0]) \<and>
   broadcast_shapes [1] [3] = Some [3] \<and>
   (\<exists>r. encode key_noise incr_vae (Tensor [1] [5]) 2 = Inr r \<and> shape r = [3]) \<and>
   encoder incr_vae (Tensor [2] [5, 6]) = (Tensor [2] [5, 6], Tensor [3] [0, 0, 0]) \<and>
   broadcast_shapes [2] [3] = None \<and>
   encode key_noise incr_vae (Tensor [2] [5, 6]) 2 = Inl (BroadcastError [2] [3])"
proof -
  have e1: "encoder incr_vae (Tensor [1] [5]) = (Tensor [1] [5], Tensor [3] [0, 0, 0])"
    and e2: "encoder incr_vae (Tensor [2] [5, 6]) = (Tensor [2] [5, 6], Tensor [3] [0, 0, 0])"
    by (rule encoder_incr_vae)+
  have b1: "broadcast_shapes [1] [3] = Some [3]" and b2: "broadcast_shapes [2] [3] = None"
    by (simp_all add: broadcast_shapes_def)
  from encode_fails_iff_not_broadcastable[OF e1, of key_noise 2] b1
  have r1: "\<exists>r. encode key_noise incr_vae (Tensor [1] [5]) 2 = Inr r \<and> shape r = [3]"
    by simp
  from encode_fails_iff_not_broadcastable[OF e2, of key_noise 2] b2
  have r2: "encode key_noise incr_vae (Tensor [2] [5, 6]) 2 = Inl (BroadcastError [2] [3])"
    by simp
  from e1 b1 r1 e2 b2 r2 show ?thesis by blast
qed

text \<open>
  C8 as stated fails: for a mean of shape [1] and a log-variance of shape [3], encode
  returns an array of shape [3].
\<close>

theorem encode_mismatched_shapes_returns:
  "shape (fst (encoder incr_vae (Tensor [1] [5]))) \<noteq> shape (snd (encoder incr_vae (Tensor [1] [5]))) \<and>
   encode key_noise incr_vae (Tensor [1] [5]) 2 = Inr (Tensor [3] [7, 7, 7])"
  by (simp add: encode_def encoder_incr_vae eval_arrays)

text \<open>
  C9, as amended. The run has no configuration check of its own. With input_in_axis
  set and no input it does what it does when input_in_axis is not set, and returns
  normally (for num_steps at least 0, and for any num_steps without all_steps). With a
  negative num_steps: when all_steps is not set and the input is absent or constant, the
  run returns the first state unchanged; it fails, inside the scan, when all_steps is set,
  and when an input is scanned along input_in_axis.
\<close>

theorem call_has_no_configuration_check:
  "call ca s None m all_steps (Some k) = call ca s None m all_steps None \<and>
   (0 \<le> m \<or> \<not> all_steps \<longrightarrow> (\<exists>r. call ca s None m all_steps (Some k) = Inr r)) \<and>
   (m < 0 \<longrightarrow>
      (inp = None \<or> ax = None \<longrightarrow> call ca s inp m False ax = Inr (State s)) \<and>
      (\<exists>e. call ca s inp m True ax = Inl e) \<and>
      (\<exists>e. call ca s (Some x) m all_steps (Some k) = Inl e))"
proof (intro conjI impI)
  show "call ca s None m all_steps (Some k) = call ca s None m all_steps None"
    by (simp add: call_def call_scan_def nnx_scan_def scan_xs_absent)
next
  assume "0 \<le> m \<or> \<not> all_steps"
  then show "\<exists>r. call ca s None m all_steps (Some k) = Inr r"
    by (auto simp: call_def call_scan_def nnx_scan_def scan_xs_absent split: prod.splits)
next
  assume "m < 0" and "inp = None \<or> ax = None"
  then show "call ca s inp m False ax = Inr (State s)"
    by (simp add: call_def call_scan_def nnx_scan_def scan_xs_negative)
next
  assume "m < 0"
  then show "\<exists>e. call ca s inp m True ax = Inl e"
    by (rule call_negative_all_steps)
next
  assume "m < 0"
  then obtain e where "scan_xs (Some k) m (Some x) = Inl e"
    using scan_xs_negative_axis by blast
  then show "\<exists>e. call ca s (Some x) m all_steps (Some k) = Inl e"
    by (simp add: call_def call_scan_def nnx_scan_def)
qed

theorem call_has_no_configuration_check_witness:
  "(- 1 :: int) < 0 \<and>
   call incr_ca zeros None (- 1) False (Some 0) = call incr_ca zeros None (- 1) False None \<and>
   (\<exists>r. call incr_ca zeros None (- 1) False (Some 0) = Inr r) \<and>
   call incr_ca zeros None (- 1) False None = Inr (State zeros) \<and>
   (\<exists>e. call incr_ca zeros None (- 1) True None = Inl e) \<and>
   (\<exists>e. call incr_ca zeros (Some ramp) (- 1) False (Some 0) = Inl e)"
  using call_has_no_configuration_check[of incr_ca zeros "- 1" False 0 None None ramp]
  by simp

text \<open>
  C9 as stated fails in both halves: with input_in_axis = 0 and no input, two steps of
  the example engine return the state of all 2s; with num_steps = -1 the run returns the
  first state.
\<close>

theorem call_returns_without_configuration_error:
  "call incr_ca zeros None 2 False (Some 0) = Inr (State (Tensor [2, 2, 1] [2, 2, 2, 2])) \<and>
   call incr_ca zeros None (- 1) False None = Inr (State zeros)"
proof -
  have "call incr_ca zeros None (int 2) False (Some 0)
        = Inr (State (Tensor [2, 2, 1] [2, 2, 2, 2]))"
    by (simp add: call_last scannable_absent input_slice_absent eval_nat_numeral step_incr_ca
          tmap_def zeros_def del: of_nat_numeral of_nat_Suc)
  moreover have "call incr_ca zeros None (- 1) False None = Inr (State zeros)"
    by (simp add: call_def call_scan_def nnx_scan_def scan_xs_def)
  ultimately show ?thesis by simp
qed




end
